theory Spec2Isabelle
  imports Main "HOL-Library.AList" "HOL-Library.Sublist"
begin

section \<open>JavaScript values used by \<^verbatim>\<open>src/extension.ts\<close>\<close>

text \<open>
  A string is the list of its code units, as a \<open>string\<close>: the model covers the strings whose
  code units are below 256, which is all a header delivered by the HTTP layer can hold, and
  \<open>length\<close> is \<^verbatim>\<open>.length\<close>. An optional field \<^verbatim>\<open>f?: string\<close> is a \<open>string option\<close>, \<open>None\<close>
  being \<^verbatim>\<open>undefined\<close>.
\<close>

text \<open>Truthiness of an optional string: \<^verbatim>\<open>undefined\<close> and \<^verbatim>\<open>''\<close> are falsy.\<close>

definition truthy :: "string option \<Rightarrow> bool" where
  "truthy x = (case x of None \<Rightarrow> False | Some s \<Rightarrow> s \<noteq> [])"

text \<open>
  Conversion to a string, as a template literal \<^verbatim>\<open>`${x}`\<close> or a string-typed parameter does
  it: \<^verbatim>\<open>undefined\<close> becomes the word itself.
\<close>

definition js_String :: "string option \<Rightarrow> string" where
  "js_String x = (case x of None \<Rightarrow> ''undefined'' | Some s \<Rightarrow> s)"

text \<open>
  A \<^verbatim>\<open>Record<string, string>\<close> is the list of its own properties in insertion order.
  Reading a property is a lookup. The assignment \<^verbatim>\<open>obj[k] = v\<close> overwrites the property in
  place or adds it at the end; on a plain object the key \<^verbatim>\<open>__proto__\<close> reaches the inherited
  setter, which ignores a string, so no property is created. Names are compared as written,
  letter case included. (JavaScript enumerates integer-like names before the others; the
  list order stands for insertion only.)
\<close>

type_synonym obj = "(string \<times> string) list"

definition obj_get :: "obj \<Rightarrow> string \<Rightarrow> string option" where
  "obj_get obj k = map_of obj k"

definition obj_set :: "obj \<Rightarrow> string \<Rightarrow> string \<Rightarrow> obj" where
  "obj_set obj k v = (if k = ''__proto__'' then obj else AList.update k v obj)"

text \<open>\<^verbatim>\<open>s.split(sep)\<close> for a one-character separator: the empty string gives \<^verbatim>\<open>['']\<close>.\<close>

fun js_split :: "char \<Rightarrow> string \<Rightarrow> string list" where
  "js_split sep [] = [[]]"
| "js_split sep (c # cs) =
     (if c = sep then [] # js_split sep cs
      else (case js_split sep cs of
              [] \<Rightarrow> [[c]]
            | w # ws \<Rightarrow> (c # w) # ws))"

text \<open>
  \<^verbatim>\<open>s.trim()\<close>: the white space and line terminators of ECMAScript that fit in one
  Latin-1 character (tab, LF, VT, FF, CR, space, no-break space).
\<close>

definition js_whitespace :: "char \<Rightarrow> bool" where
  "js_whitespace c =
     (c \<in> set [CHR 0x09, CHR 0x0A, CHR 0x0B, CHR 0x0C, CHR 0x0D, CHR 0x20, CHR 0xA0])"

definition js_trim :: "string \<Rightarrow> string" where
  "js_trim s = rev (dropWhile js_whitespace (rev (dropWhile js_whitespace s)))"

text \<open>
  \<^verbatim>\<open>Buffer.from(s)\<close> is the UTF-8 encoding of the string: a code unit below 128 is one byte,
  one from 128 to 255 two bytes.
\<close>

definition utf8 :: "string \<Rightarrow> string" where
  "utf8 s =
     concat (map (\<lambda>c. let n = (of_char c :: nat)
                        in if n < 128 then [c]
                           else [char_of (192 + n div 64), char_of (128 + n mod 64)]) s)"

text \<open>
  \<^verbatim>\<open>buf.toString('base64')\<close>: the standard alphabet with \<^verbatim>\<open>=\<close> padding, three bytes to four
  digits.
\<close>

definition b64_digit :: "nat \<Rightarrow> char" where
  "b64_digit n =
     ''ABCDEFGHIJKLMNOPQRSTUVWXYZabcdefghijklmnopqrstuvwxyz0123456789+/'' ! n"

fun base64 :: "string \<Rightarrow> string" where
  "base64 [] = []"
| "base64 [a] =
     (let x = (of_char a :: nat)
      in [b64_digit (x div 4), b64_digit ((x mod 4) * 16), CHR ''='', CHR ''=''])"
| "base64 [a, b] =
     (let x = (of_char a :: nat); y = (of_char b :: nat)
      in [b64_digit (x div 4), b64_digit ((x mod 4) * 16 + y div 16),
          b64_digit ((y mod 16) * 4), CHR ''=''])"
| "base64 (a # b # c # rest) =
     (let x = (of_char a :: nat); y = (of_char b :: nat); z = (of_char c :: nat)
      in [b64_digit (x div 4), b64_digit ((x mod 4) * 16 + y div 16),
          b64_digit ((y mod 16) * 4 + z div 64), b64_digit (z mod 64)] @ base64 rest)"

section \<open>The data model\<close>

text \<open>\<^verbatim>\<open>WebviewMessage.auth\<close> (lines 20-25).\<close>

record Auth =
  auth_type :: string
  username :: "string option"
  password :: "string option"
  token :: "string option"

text \<open>\<^verbatim>\<open>interface WebviewMessage\<close> (lines 13-26).\<close>

record WebviewMessage =
  command :: string
  url :: "string option"
  "method" :: "string option"
  headers :: "obj option"
  body :: "string option"
  query :: "obj option"
  auth :: "Auth option"

text \<open>\<^verbatim>\<open>interface ResponseData\<close> (lines 28-36).\<close>

record ResponseData =
  status :: int
  statusText :: string
  res_headers :: obj
  res_body :: string
  res_size :: nat
  time :: int
  cookies :: obj

text \<open>\<^verbatim>\<open>interface RequestHistory\<close> (lines 6-11).\<close>

record RequestHistory =
  h_url :: string
  h_method :: string
  timestamp :: int
  response :: ResponseData

text \<open>The \<^verbatim>\<open>options\<close> object handed to \<^verbatim>\<open>fetch\<close> (lines 309-312, 325).\<close>

record RequestInit =
  opt_method :: "string option"
  opt_headers :: obj
  opt_body :: "string option"

section \<open>Building the outgoing request (lines 309-329)\<close>

text \<open>The \<^verbatim>\<open>switch (message.auth.type)\<close> of lines 313-323.\<close>

definition apply_auth :: "Auth option \<Rightarrow> obj \<Rightarrow> obj" where
  "apply_auth a hs =
     (case a of
        None \<Rightarrow> hs
      | Some au \<Rightarrow>
          if auth_type au = ''basic'' then
            obj_set hs ''Authorization''
              (''Basic '' @
                 base64 (utf8 (js_String (username au) @ '':'' @ js_String (password au))))
          else if auth_type au = ''bearer'' then
            obj_set hs ''Authorization'' (''Bearer '' @ js_String (token au))
          else hs)"

text \<open>\<^verbatim>\<open>['POST', 'PUT', 'PATCH'].includes(message.method!) && message.body\<close> (line 324).\<close>

definition attaches_body :: "WebviewMessage \<Rightarrow> bool" where
  "attaches_body msg =
     ((case method msg of None \<Rightarrow> False | Some m \<Rightarrow> m \<in> set [''POST'', ''PUT'', ''PATCH''])
      \<and> truthy (body msg))"

definition build_options :: "WebviewMessage \<Rightarrow> RequestInit" where
  "build_options msg =
     (let hs0 = (case headers msg of None \<Rightarrow> [] | Some h \<Rightarrow> h);
          hs1 = apply_auth (auth msg) hs0
      in if attaches_body msg then
           \<lparr>opt_method = method msg,
            opt_headers =
              (if \<not> truthy (obj_get hs1 ''Content-Type'')
               then obj_set hs1 ''Content-Type'' ''application/json''
               else hs1),
            opt_body = body msg\<rparr>
         else \<lparr>opt_method = method msg, opt_headers = hs1, opt_body = None\<rparr>)"

section \<open>Normalising the response (lines 334-359)\<close>

text \<open>The body of the \<^verbatim>\<open>forEach\<close> over the segments of the header (lines 339-344).\<close>

definition cookie_step :: "obj \<Rightarrow> string \<Rightarrow> obj" where
  "cookie_step cs cookie =
     (case js_split CHR ''='' cookie of
        name # value # _ \<Rightarrow>
          if name \<noteq> [] \<and> value \<noteq> [] then obj_set cs (js_trim name) (js_trim value) else cs
      | _ \<Rightarrow> cs)"

text \<open>Lines 336-345; the argument is \<^verbatim>\<open>response.headers.get('set-cookie')\<close>.\<close>

definition parse_cookies :: "string option \<Rightarrow> obj" where
  "parse_cookies setCookieHeader =
     (case setCookieHeader of
        None \<Rightarrow> []
      | Some h \<Rightarrow> if h = [] then [] else foldl cookie_step [] (js_split CHR '';'' h))"

text \<open>
  What the transport hands back: the fields of the \<^verbatim>\<open>Response\<close> that lines 333-353 read.
  \<open>raw_set_cookie\<close> is \<^verbatim>\<open>response.headers.get('set-cookie')\<close>, \<open>raw_entries\<close> the
  \<^verbatim>\<open>(key, value)\<close> pairs that \<^verbatim>\<open>response.headers.forEach\<close> visits, in order, and \<open>raw_text\<close>
  the outcome of \<^verbatim>\<open>await response.text()\<close>.
\<close>

datatype thrown = ErrorInstance string | ThrownString string | ThrownOther

record raw_response =
  raw_status :: int
  raw_statusText :: string
  raw_set_cookie :: "string option"
  raw_entries :: "(string \<times> string) list"
  raw_text :: "thrown + string"

text \<open>Lines 347-350: \<^verbatim>\<open>headers[key] = value\<close> for every entry.\<close>

definition collect_headers :: "(string \<times> string) list \<Rightarrow> obj" where
  "collect_headers entries = foldl (\<lambda>hs (key, value). obj_set hs key value) [] entries"

text \<open>Lines 334-359, once \<^verbatim>\<open>text\<close> has arrived.\<close>

definition normalize :: "raw_response \<Rightarrow> string \<Rightarrow> int \<Rightarrow> int \<Rightarrow> ResponseData" where
  "normalize res text startTime endTime =
     \<lparr>status = raw_status res,
      statusText = raw_statusText res,
      res_headers = collect_headers (raw_entries res),
      res_body = text,
      res_size = length text,
      time = endTime - startTime,
      cookies = parse_cookies (raw_set_cookie res)\<rparr>"

section \<open>The catch block (lines 360-377)\<close>

definition errorMessage :: "thrown \<Rightarrow> string" where
  "errorMessage error =
     (case error of
        ErrorInstance message \<Rightarrow> message
      | ThrownString s \<Rightarrow> s
      | ThrownOther \<Rightarrow> ''An unknown error occurred'')"

definition catch_block :: "thrown \<Rightarrow> int \<Rightarrow> int \<Rightarrow> ResponseData" where
  "catch_block error startTime endTime =
     \<lparr>status = 0,
      statusText = ''Error'',
      res_headers = [],
      res_body = errorMessage error,
      res_size = length (errorMessage error),
      time = endTime - startTime,
      cookies = []\<rparr>"

section \<open>\<^verbatim>\<open>makeRequest\<close> (lines 299-379, and its copy at lines 98-176)\<close>

text \<open>
  The platform is a parameter: \<open>new_URL\<close> is the \<^verbatim>\<open>URL\<close> constructor (the normalised href, or
  the error it throws) and \<open>fetch\<close> the network call. A parsed URL together with the pairs
  appended to its \<^verbatim>\<open>searchParams\<close> is a \<open>target\<close>. The process environment variable
  \<^verbatim>\<open>NODE_TLS_REJECT_UNAUTHORIZED\<close> is passed in and returned.
\<close>

type_synonym target = "string \<times> obj"

text \<open>
  The synchronous part of the try block, lines 303-331: everything up to the call of
  \<^verbatim>\<open>fetch\<close>. Line 331 is reached only when the URL parsed.
\<close>

definition dispatch ::
  "(string \<Rightarrow> thrown + string) \<Rightarrow> string option \<Rightarrow> WebviewMessage
     \<Rightarrow> (thrown + target \<times> RequestInit) \<times> string option" where
  "dispatch new_URL tls message =
     (case new_URL (js_String (url message)) of
        Inl error \<Rightarrow> (Inl error, tls)
      | Inr href \<Rightarrow>
          (Inr ((href, (case query message of None \<Rightarrow> [] | Some q \<Rightarrow> q)),
                build_options message),
           Some ''0''))"

text \<open>The rest of the function once \<^verbatim>\<open>fetch\<close> has settled: lines 332-378.\<close>

definition settle :: "thrown + raw_response \<Rightarrow> int \<Rightarrow> int \<Rightarrow> ResponseData" where
  "settle outcome startTime endTime =
     (case outcome of
        Inl error \<Rightarrow> catch_block error startTime endTime
      | Inr res \<Rightarrow>
          (case raw_text res of
             Inl error \<Rightarrow> catch_block error startTime endTime
           | Inr text \<Rightarrow> normalize res text startTime endTime))"

definition makeRequest ::
  "(string \<Rightarrow> thrown + string) \<Rightarrow> (target \<Rightarrow> RequestInit \<Rightarrow> thrown + raw_response)
     \<Rightarrow> int \<Rightarrow> int \<Rightarrow> string option \<Rightarrow> WebviewMessage \<Rightarrow> ResponseData \<times> string option" where
  "makeRequest new_URL fetch startTime endTime tls message =
     (case dispatch new_URL tls message of
        (Inl error, tls') \<Rightarrow> (catch_block error startTime endTime, tls')
      | (Inr (target, options), tls') \<Rightarrow>
          (settle (fetch target options) startTime endTime, tls'))"


text \<open>
  How the promise of the \<^verbatim>\<open>async\<close> function settles: fulfilled with the value returned at
  line 378, or rejected with a value thrown outside the try block. The catch block takes
  every value thrown in the try block, and line 378 only returns.
\<close>

datatype 'a promise = Fulfilled 'a | Rejected thrown


section \<open>The controllers as a transition system\<close>

text \<open>
  One extension host: the history view with its \<^verbatim>\<open>_history\<close>, the request panels, and the
  process environment they share. A request that reached \<^verbatim>\<open>fetch\<close> is in flight under a
  ticket until the network settles it; the three \<^verbatim>\<open>Date.now()\<close> readings a handler may take
  travel with the event.
\<close>

datatype origin = HistoryView | RequestPanel nat

record pending =
  p_origin :: origin
  p_message :: WebviewMessage
  p_target :: target
  p_options :: RequestInit
  p_startTime :: int

record system =
  history :: "RequestHistory list"
  view_html :: "RequestHistory list"
  view_posted :: "ResponseData list"
  panel_posted :: "(nat \<times> ResponseData) list"
  opened_links :: "string list"
  panels_created :: nat
  tls_env :: "string option"
  in_flight :: "(nat \<times> pending) list"
  next_ticket :: nat

datatype event =
    ViewMessage WebviewMessage int int int
  | PanelMessage nat WebviewMessage int int
  | Settled nat "thrown + raw_response" int int
  | NewRequestCommand

definition initial :: system where
  "initial =
     \<lparr>history = [], view_html = [], view_posted = [], panel_posted = [], opened_links = [],
      panels_created = 0, tls_env = None, in_flight = [], next_ticket = 0\<rparr>"

text \<open>
  The end of the history view's request: the copy of \<^verbatim>\<open>makeRequest\<close> posts the response
  (lines 178-183), then the \<^verbatim>\<open>then\<close> callback pushes the entry and redraws (lines 66-73).
  \<open>view_html\<close> records the list that \<^verbatim>\<open>getWebviewContent\<close> was given.
\<close>

definition newHistory :: "WebviewMessage \<Rightarrow> ResponseData \<Rightarrow> int \<Rightarrow> RequestHistory" where
  "newHistory message r now =
     \<lparr>h_url = js_String (url message), h_method = js_String (method message),
      timestamp = now, response = r\<rparr>"

definition view_completed :: "system \<Rightarrow> WebviewMessage \<Rightarrow> ResponseData \<Rightarrow> int \<Rightarrow> system" where
  "view_completed s message r now =
     s\<lparr>view_posted := view_posted s @ [r],
       history := history s @ [newHistory message r now],
       view_html := history s @ [newHistory message r now]\<rparr>"

text \<open>Lines 405-409: the panel's handler posts the response to its own panel.\<close>

definition panel_completed :: "system \<Rightarrow> nat \<Rightarrow> ResponseData \<Rightarrow> system" where
  "panel_completed s pid r = s\<lparr>panel_posted := panel_posted s @ [(pid, r)]\<rparr>"

text \<open>
  Calling \<^verbatim>\<open>makeRequest\<close> from a handler: a URL that does not parse is caught at once and the
  call completes in the same turn; otherwise the request is in flight.
\<close>

definition start_request ::
  "(string \<Rightarrow> thrown + string) \<Rightarrow> system \<Rightarrow> origin \<Rightarrow> WebviewMessage \<Rightarrow> int \<Rightarrow> int \<Rightarrow> int
     \<Rightarrow> system" where
  "start_request new_URL s orig message startTime endTime now =
     (case dispatch new_URL (tls_env s) message of
        (Inl error, tls') \<Rightarrow>
          (let r = catch_block error startTime endTime; s' = s\<lparr>tls_env := tls'\<rparr>
           in case orig of
                HistoryView \<Rightarrow> view_completed s' message r now
              | RequestPanel pid \<Rightarrow> panel_completed s' pid r)
      | (Inr (target, options), tls') \<Rightarrow>
          s\<lparr>tls_env := tls',
            in_flight := in_flight s @
              [(next_ticket s,
                \<lparr>p_origin = orig, p_message = message, p_target = target,
                 p_options = options, p_startTime = startTime\<rparr>)],
            next_ticket := Suc (next_ticket s)\<rparr>)"

text \<open>\<^verbatim>\<open>createNewRequestPanel\<close> (lines 381-421), as far as the controllers see it.\<close>

definition createNewRequestPanel :: "system \<Rightarrow> system" where
  "createNewRequestPanel s = s\<lparr>panels_created := Suc (panels_created s)\<rparr>"

text \<open>The history view's message handler, lines 61-86.\<close>

definition view_handler ::
  "(string \<Rightarrow> thrown + string) \<Rightarrow> system \<Rightarrow> WebviewMessage \<Rightarrow> int \<Rightarrow> int \<Rightarrow> int \<Rightarrow> system" where
  "view_handler new_URL s message startTime endTime now =
     (if command message = ''makeRequest'' then
        (if truthy (url message) \<and> truthy (method message)
         then start_request new_URL s HistoryView message startTime endTime now
         else s)
      else if command message = ''openLink'' then
        (if truthy (url message)
         then s\<lparr>opened_links := opened_links s @ [js_String (url message)]\<rparr>
         else s)
      else if command message = ''startNewRequest'' then createNewRequestPanel s
      else s)"

text \<open>A request panel's message handler, lines 402-414.\<close>

definition panel_handler ::
  "(string \<Rightarrow> thrown + string) \<Rightarrow> system \<Rightarrow> nat \<Rightarrow> WebviewMessage \<Rightarrow> int \<Rightarrow> int \<Rightarrow> system" where
  "panel_handler new_URL s pid message startTime endTime =
     (if command message = ''makeRequest'' \<and> truthy (url message) \<and> truthy (method message)
      then start_request new_URL s (RequestPanel pid) message startTime endTime endTime
      else s)"

text \<open>The network settles the request in flight under a ticket.\<close>

definition settled :: "system \<Rightarrow> nat \<Rightarrow> thrown + raw_response \<Rightarrow> int \<Rightarrow> int \<Rightarrow> system" where
  "settled s ticket outcome endTime now =
     (case map_of (in_flight s) ticket of
        None \<Rightarrow> s
      | Some p \<Rightarrow>
          (let r = settle outcome (p_startTime p) endTime;
               s' = s\<lparr>in_flight := AList.delete ticket (in_flight s)\<rparr>
           in case p_origin p of
                HistoryView \<Rightarrow> view_completed s' (p_message p) r now
              | RequestPanel pid \<Rightarrow> panel_completed s' pid r))"

fun step :: "(string \<Rightarrow> thrown + string) \<Rightarrow> system \<Rightarrow> event \<Rightarrow> system" where
  "step new_URL s (ViewMessage message startTime endTime now) =
     view_handler new_URL s message startTime endTime now"
| "step new_URL s (PanelMessage pid message startTime endTime) =
     panel_handler new_URL s pid message startTime endTime"
| "step new_URL s (Settled ticket outcome endTime now) = settled s ticket outcome endTime now"
| "step new_URL s NewRequestCommand = createNewRequestPanel s"

definition run :: "(string \<Rightarrow> thrown + string) \<Rightarrow> system \<Rightarrow> event list \<Rightarrow> system" where
  "run new_URL s evs = foldl (step new_URL) s evs"

section \<open>The request panel's \<^verbatim>\<open>sendRequest\<close> (lines 979-1032)\<close>

text \<open>
  The form rows are \<^verbatim>\<open>(checkbox.checked, keyInput.value, valueInput.value)\<close>; a row is applied
  when it is checked and both its inputs are non-empty (lines 989-991 and 1000-1002).
\<close>

definition collect_rows :: "(bool \<times> string \<times> string) list \<Rightarrow> obj" where
  "collect_rows rows =
     foldl (\<lambda>acc (checked, key, val). if checked \<and> key \<noteq> [] \<and> val \<noteq> [] then obj_set acc key val else acc)
       [] rows"

definition sendRequest ::
  "string \<Rightarrow> string \<Rightarrow> (bool \<times> string \<times> string) list \<Rightarrow> (bool \<times> string \<times> string) list
     \<Rightarrow> string \<Rightarrow> string \<Rightarrow> string \<Rightarrow> string \<Rightarrow> string \<Rightarrow> WebviewMessage" where
  "sendRequest method_value url_value queryRows headerRows activeAuthTab username_value
       password_value token_value requestBody =
     \<lparr>command = ''makeRequest'',
      url = Some url_value,
      method = Some method_value,
      headers = Some (collect_rows headerRows),
      body = Some requestBody,
      query = Some (collect_rows queryRows),
      auth = Some
        (if activeAuthTab = ''basic'' then
           \<lparr>auth_type = ''basic'', username = Some username_value,
            password = Some password_value, token = None\<rparr>
         else if activeAuthTab = ''bearer'' then
           \<lparr>auth_type = ''bearer'', username = None, password = None, token = Some token_value\<rparr>
         else \<lparr>auth_type = ''none'', username = None, password = None, token = None\<rparr>)\<rparr>"

section \<open>The cookie rule in the words of the specification\<close>

text \<open>
  For comparison with \<open>cookie_step\<close>: the specification splits a segment at its first
  \<^verbatim>\<open>=\<close> and drops it when the name or the value is empty after trimming.
\<close>

definition spec_cookie_step :: "obj \<Rightarrow> string \<Rightarrow> obj" where
  "spec_cookie_step cs cookie =
     (if CHR ''='' \<notin> set cookie then cs
      else (let name = js_trim (takeWhile (\<lambda>c. c \<noteq> CHR ''='') cookie);
                value = js_trim (tl (dropWhile (\<lambda>c. c \<noteq> CHR ''='') cookie))
            in if name = [] \<or> value = [] then cs else obj_set cs name value))"

definition spec_parse_cookies :: "string option \<Rightarrow> obj" where
  "spec_parse_cookies setCookieHeader =
     (case setCookieHeader of
        None \<Rightarrow> []
      | Some h \<Rightarrow> foldl spec_cookie_step [] (js_split CHR '';'' h))"

section \<open>Header names in the words of the specification\<close>

text \<open>
  The specification takes header names as case-insensitive at the transport level: two
  names are the same header when they agree up to the case of the letters A to Z.
  \<open>header_named\<close> picks the entries of an object that are a given header in this sense.
\<close>

definition lower :: "char \<Rightarrow> char" where
  "lower c =
     (case map_of (zip ''ABCDEFGHIJKLMNOPQRSTUVWXYZ'' ''abcdefghijklmnopqrstuvwxyz'') c of
        None \<Rightarrow> c
      | Some l \<Rightarrow> l)"

definition same_header :: "string \<Rightarrow> string \<Rightarrow> bool" where
  "same_header a b = (map lower a = map lower b)"

definition header_named :: "string \<Rightarrow> obj \<Rightarrow> obj" where
  "header_named name hs = filter (\<lambda>kv. same_header (fst kv) name) hs"

section \<open>A sample platform\<close>

text \<open>
  Concrete stand-ins for the platform, used where a statement is run on an input: a URL
  constructor that accepts the two HTTP schemes, and a network whose name lookup fails,
  with the message node-fetch gives for a target without query pairs.
\<close>

definition example_URL :: "string \<Rightarrow> thrown + string" where
  "example_URL s =
     (if take 7 s = ''http://'' \<or> take 8 s = ''https://'' then Inr s
      else Inl (ErrorInstance ''Invalid URL''))"



definition get_request :: "string \<Rightarrow> WebviewMessage" where
  "get_request u = sendRequest ''GET'' u [] [] ''none'' [] [] [] []"

definition post_request :: "(bool \<times> string \<times> string) list \<Rightarrow> string \<Rightarrow> WebviewMessage" where
  "post_request headerRows activeAuthTab =
     sendRequest ''POST'' ''http://localhost/items'' [] headerRows activeAuthTab [] [] ''t0k'' ''{}''"

definition one_pending :: system where
  "one_pending =
     step example_URL initial (ViewMessage (get_request ''http://localhost/'') 10 10 10)"

section \<open>Properties of the outgoing request\<close>

lemma obj_get_obj_set:
  "obj_get (obj_set hs k v) k' =
     (if k = ''__proto__'' then obj_get hs k' else if k' = k then Some v else obj_get hs k')"
  by (simp add: obj_get_def obj_set_def update_conv')

lemma distinct_obj_set: "distinct (map fst hs) \<Longrightarrow> distinct (map fst (obj_set hs k v))"
  by (simp add: obj_set_def distinct_update)



lemma apply_auth_other_key:
  "k \<noteq> ''Authorization'' \<Longrightarrow> obj_get (apply_auth a hs) k = obj_get hs k"
  by (simp add: apply_auth_def obj_get_obj_set split: option.splits)

lemma opt_headers_Authorization:
  "obj_get (opt_headers (build_options msg)) ''Authorization'' =
     obj_get (apply_auth (auth msg) (case headers msg of None \<Rightarrow> [] | Some h \<Rightarrow> h)) ''Authorization''"
  by (simp add: build_options_def Let_def obj_get_obj_set)

text \<open>
  What \<open>sendRequest\<close> collects from the rows is an object whose names and values are all
  non-empty.
\<close>

lemma obj_set_entries: "set (obj_set hs k v) \<subseteq> insert (k, v) (set hs)"
  by (induction hs) (auto simp: obj_set_def)

lemma collect_rows_invariant:
  assumes "distinct (map fst acc)" and "\<forall>(k, v) \<in> set acc. k \<noteq> [] \<and> v \<noteq> []"
    and "r = foldl (\<lambda>acc (checked, key, val).
                 if checked \<and> key \<noteq> [] \<and> val \<noteq> [] then obj_set acc key val else acc) acc rows"
  shows "distinct (map fst r) \<and> (\<forall>(k, v) \<in> set r. k \<noteq> [] \<and> v \<noteq> [])"
  using assms
proof (induction rows arbitrary: acc)
  case Nil
  then show ?case by simp
next
  case (Cons row rows)
  obtain checked key val where row: "row = (checked, key, val)"
    by (cases row) auto
  let ?acc = "if checked \<and> key \<noteq> [] \<and> val \<noteq> [] then obj_set acc key val else acc"
  have d: "distinct (map fst ?acc)"
    using Cons.prems(1) by (simp add: distinct_obj_set)
  have n: "\<forall>(k, v) \<in> set ?acc. k \<noteq> [] \<and> v \<noteq> []"
    using Cons.prems(2) obj_set_entries [of acc key val] by auto
  show ?case
    using Cons.IH [OF d n] Cons.prems(3) by (simp add: row)
qed

lemma collect_rows_object:
  "distinct (map fst (collect_rows rows))
   \<and> (\<forall>(k, v) \<in> set (collect_rows rows). k \<noteq> [] \<and> v \<noteq> [])"
  by (rule collect_rows_invariant [where acc = "[]"]) (simp_all add: collect_rows_def)

text \<open>
  Claim C3. When \<^verbatim>\<open>auth.type\<close> is \<^verbatim>\<open>basic\<close> and the message carries a user name \<open>u\<close> and a
  password \<open>p\<close>, the \<^verbatim>\<open>Authorization\<close> property of the headers handed to \<^verbatim>\<open>fetch\<close> is exactly
  \<^verbatim>\<open>"Basic "\<close> followed by the base64 encoding of (the UTF-8 bytes of) \<open>u\<close>, a colon and
  \<open>p\<close>; \<open>u\<close> and \<open>p\<close> may be empty.
\<close>

theorem basic_auth_header:
  assumes "auth msg = Some au" and "auth_type au = ''basic''"
    and "username au = Some u" and "password au = Some p"
  shows "obj_get (opt_headers (build_options msg)) ''Authorization'' =
           Some (''Basic '' @ base64 (utf8 (u @ '':'' @ p)))"
  using assms
  by (simp add: opt_headers_Authorization apply_auth_def obj_get_obj_set js_String_def)

theorem basic_auth_header_witness:
  "auth (post_request [] ''basic'') =
     Some \<lparr>auth_type = ''basic'', username = Some [], password = Some [], token = None\<rparr>
   \<and> obj_get (opt_headers (build_options (post_request [] ''basic''))) ''Authorization'' =
       Some ''Basic Og=='' "
  using basic_auth_header [where msg = "post_request [] ''basic''" and u = "[]" and p = "[]"
      and au = "\<lparr>auth_type = ''basic'', username = Some [], password = Some [], token = None\<rparr>"]
  by (simp add: post_request_def sendRequest_def utf8_def b64_digit_def)

text \<open>
  Claim C4. A request whose method is GET, HEAD, DELETE or OPTIONS never gets a body, whatever
  the message's body is; the options carry a body exactly when the method is POST, PUT or
  PATCH and the message's body is a non-empty string, and then it is that string.
\<close>

theorem body_method_gate:
  "(method msg \<in> Some ` {''GET'', ''HEAD'', ''DELETE'', ''OPTIONS''}
      \<longrightarrow> opt_body (build_options msg) = None)
   \<and> (opt_body (build_options msg) \<noteq> None
      \<longleftrightarrow> method msg \<in> Some ` {''POST'', ''PUT'', ''PATCH''}
          \<and> body msg \<noteq> None \<and> body msg \<noteq> Some [])
   \<and> (opt_body (build_options msg) \<noteq> None \<longrightarrow> opt_body (build_options msg) = body msg)"
  by (auto simp: build_options_def attaches_body_def truthy_def Let_def split: option.splits)

theorem body_method_gate_witness:
  "method (sendRequest ''DELETE'' ''http://localhost/items/1'' [] [] ''none'' [] [] [] ''{}'')
     \<in> Some ` {''GET'', ''HEAD'', ''DELETE'', ''OPTIONS''}
   \<and> opt_body (build_options
        (sendRequest ''DELETE'' ''http://localhost/items/1'' [] [] ''none'' [] [] [] ''{}'')) = None
   \<and> opt_body (build_options (post_request [] ''none'')) = Some ''{}'' "
  using body_method_gate
      [of "sendRequest ''DELETE'' ''http://localhost/items/1'' [] [] ''none'' [] [] [] ''{}''"]
    body_method_gate [of "post_request [] ''none''"]
  by (simp add: post_request_def sendRequest_def)

text \<open>
  Claim C5, amended. The header is looked up under the exact spelling \<^verbatim>\<open>Content-Type\<close>. When a
  body is attached and the user's headers have no property of that spelling, the outgoing
  headers are the headers after the auth step with \<^verbatim>\<open>Content-Type: application/json\<close>
  assigned; when they have one, with a non-empty value (the only kind an enabled row
  yields), the headers after the auth step go out as they are and \<^verbatim>\<open>Content-Type\<close> keeps the
  user's value.
\<close>

theorem content_type_default:
  assumes "method msg \<in> Some ` {''POST'', ''PUT'', ''PATCH''}"
    and "body msg = Some b" and "b \<noteq> []"
    and "hs = (case headers msg of None \<Rightarrow> [] | Some h \<Rightarrow> h)"
  shows "(obj_get hs ''Content-Type'' = None \<longrightarrow>
            opt_headers (build_options msg) =
              obj_set (apply_auth (auth msg) hs) ''Content-Type'' ''application/json''
            \<and> obj_get (opt_headers (build_options msg)) ''Content-Type'' = Some ''application/json'')
       \<and> (\<forall>v. obj_get hs ''Content-Type'' = Some v \<and> v \<noteq> [] \<longrightarrow>
            opt_headers (build_options msg) = apply_auth (auth msg) hs
            \<and> obj_get (opt_headers (build_options msg)) ''Content-Type'' = Some v)"
proof -
  have a: "attaches_body msg"
    using assms(1-3) by (auto simp: attaches_body_def truthy_def)
  have g: "obj_get (apply_auth (auth msg) hs) ''Content-Type'' = obj_get hs ''Content-Type''"
    by (simp add: apply_auth_other_key)
  show ?thesis
    using a g assms(4) by (auto simp: build_options_def Let_def truthy_def obj_get_obj_set)
qed

theorem content_type_default_witness:
  "method (post_request [] ''none'') \<in> Some ` {''POST'', ''PUT'', ''PATCH''}
   \<and> body (post_request [] ''none'') = Some ''{}''
   \<and> obj_get [] ''Content-Type'' = None
   \<and> opt_headers (build_options (post_request [] ''none'')) =
       [(''Content-Type'', ''application/json'')]
   \<and> obj_get [(''Content-Type'', ''text/plain'')] ''Content-Type'' = Some ''text/plain''
   \<and> opt_headers (build_options (post_request [(True, ''Content-Type'', ''text/plain'')] ''none'')) =
       [(''Content-Type'', ''text/plain'')]"
proof -
  let ?plain = "post_request [] ''none''"
  let ?typed = "post_request [(True, ''Content-Type'', ''text/plain'')] ''none''"
  have m1: "method ?plain \<in> Some ` {''POST'', ''PUT'', ''PATCH''}"
    and b1: "body ?plain = Some ''{}''"
    and h1: "[] = (case headers ?plain of None \<Rightarrow> [] | Some h \<Rightarrow> h)"
    and a1: "apply_auth (auth ?plain) [] = []"
    by (simp_all add: post_request_def sendRequest_def collect_rows_def apply_auth_def)
  have m2: "method ?typed \<in> Some ` {''POST'', ''PUT'', ''PATCH''}"
    and b2: "body ?typed = Some ''{}''"
    and h2: "[(''Content-Type'', ''text/plain'')] = (case headers ?typed of None \<Rightarrow> [] | Some h \<Rightarrow> h)"
    and a2: "apply_auth (auth ?typed) [(''Content-Type'', ''text/plain'')] =
               [(''Content-Type'', ''text/plain'')]"
    by (simp_all add: post_request_def sendRequest_def collect_rows_def apply_auth_def obj_set_def)
  have g1: "obj_get [] ''Content-Type'' = None"
    and g2: "obj_get [(''Content-Type'', ''text/plain'')] ''Content-Type'' = Some ''text/plain''"
    by (simp_all add: obj_get_def)
  have n: "''{}'' \<noteq> []" and n': "''text/plain'' \<noteq> []" by simp_all
  from content_type_default [OF m1 b1 n h1] g1
  have r1: "opt_headers (build_options ?plain) = [(''Content-Type'', ''application/json'')]"
    by (simp add: a1 obj_set_def)
  from content_type_default [OF m2 b2 n h2] g2 n'
  have r2: "opt_headers (build_options ?typed) = [(''Content-Type'', ''text/plain'')]"
    by (simp add: a2)
  show ?thesis
    using m1 b1 g1 g2 r1 r2 by simp
qed

text \<open>
  The claim as stated fails for a header the user spelled in another letter case: it is a
  \<^verbatim>\<open>Content-Type\<close> header of the request, yet the default is added beside it.
\<close>

theorem content_type_default_counterexample:
  "header_named ''Content-Type'' [(''content-type'', ''text/xml'')] =
     [(''content-type'', ''text/xml'')]
   \<and> opt_headers (build_options (post_request [(True, ''content-type'', ''text/xml'')] ''none'')) =
       [(''content-type'', ''text/xml''), (''Content-Type'', ''application/json'')]
   \<and> header_named ''Content-Type''
         (opt_headers (build_options
            (post_request [(True, ''content-type'', ''text/xml'')] ''none''))) =
       [(''content-type'', ''text/xml''), (''Content-Type'', ''application/json'')]"
  by (simp add: post_request_def sendRequest_def collect_rows_def obj_set_def obj_get_def
      build_options_def apply_auth_def attaches_body_def truthy_def header_named_def
      same_header_def lower_def)








section \<open>Properties of the response\<close>

lemma js_split_unfold:
  "js_split sep s =
     takeWhile (\<lambda>c. c \<noteq> sep) s #
       (case dropWhile (\<lambda>c. c \<noteq> sep) s of [] \<Rightarrow> [] | _ # r \<Rightarrow> js_split sep r)"
  by (induction s) auto

lemma js_split_no_separator: "w \<in> set (js_split sep s) \<Longrightarrow> sep \<notin> set w"
  by (induction s arbitrary: w) (auto split: if_splits list.splits)

lemma cookie_step_without_equals:
  assumes "CHR ''='' \<notin> set cookie"
  shows "cookie_step cs cookie = cs"
proof -
  have d: "dropWhile (\<lambda>c. c \<noteq> CHR ''='') cookie = []"
    using assms by auto
  have "js_split CHR ''='' cookie = [takeWhile (\<lambda>c. c \<noteq> CHR ''='') cookie]"
    by (subst js_split_unfold, subst d, simp)
  then show ?thesis by (simp add: cookie_step_def)
qed

lemma cookie_step_with_equals:
  assumes "CHR ''='' \<in> set cookie"
    and "name = takeWhile (\<lambda>c. c \<noteq> CHR ''='') cookie"
    and "value = takeWhile (\<lambda>c. c \<noteq> CHR ''='') (tl (dropWhile (\<lambda>c. c \<noteq> CHR ''='') cookie))"
  shows "cookie_step cs cookie =
           (if name = [] \<or> value = [] then cs else obj_set cs (js_trim name) (js_trim value))"
proof -
  have ne: "dropWhile (\<lambda>c. c \<noteq> CHR ''='') cookie \<noteq> []"
    using assms(1) by auto
  then have "\<not> (hd (dropWhile (\<lambda>c. c \<noteq> CHR ''='') cookie) \<noteq> CHR ''='')"
    by (rule hd_dropWhile)
  with ne obtain r where r: "dropWhile (\<lambda>c. c \<noteq> CHR ''='') cookie = CHR ''='' # r"
    by (cases "dropWhile (\<lambda>c. c \<noteq> CHR ''='') cookie") auto
  have "js_split CHR ''='' cookie = name # js_split CHR ''='' r"
    by (subst js_split_unfold) (simp add: r assms(2))
  also have "js_split CHR ''='' r =
      value # (case dropWhile (\<lambda>c. c \<noteq> CHR ''='') r of [] \<Rightarrow> [] | _ # r' \<Rightarrow> js_split CHR ''='' r')"
    by (subst js_split_unfold) (simp add: r assms(3))
  finally show ?thesis by (simp add: cookie_step_def)
qed

text \<open>
  Claim C2, amended. The cookie mapping is built from the \<^verbatim>\<open>Set-Cookie\<close> header alone, read as
  one string: nothing when the header is absent or empty, otherwise the segments between
  the \<^verbatim>\<open>;\<close> are taken in order. A segment without \<^verbatim>\<open>=\<close> is dropped. Otherwise the name is
  the text before the first \<^verbatim>\<open>=\<close> and the value the text between the first \<^verbatim>\<open>=\<close> and the
  second (or the end); the segment is dropped when the name or the value is empty before
  trimming, and else the trimmed value is assigned to the trimmed name. The header
  \<^verbatim>\<open>a=1; b=2; Path=/\<close> gives \<^verbatim>\<open>{a: "1", b: "2", Path: "/"}\<close>.
\<close>

theorem cookie_parsing:
  "parse_cookies None = []
   \<and> parse_cookies (Some []) = []
   \<and> (h \<noteq> [] \<longrightarrow> parse_cookies (Some h) = foldl cookie_step [] (js_split CHR '';'' h))
   \<and> (CHR ''='' \<notin> set seg \<longrightarrow> cookie_step cs seg = cs)
   \<and> (CHR ''='' \<in> set seg \<longrightarrow>
        cookie_step cs seg =
          (let name = takeWhile (\<lambda>c. c \<noteq> CHR ''='') seg;
               value = takeWhile (\<lambda>c. c \<noteq> CHR ''='')
                         (tl (dropWhile (\<lambda>c. c \<noteq> CHR ''='') seg))
           in if name = [] \<or> value = [] then cs
              else obj_set cs (js_trim name) (js_trim value)))
   \<and> parse_cookies (Some ''a=1; b=2; Path=/'') =
       [(''a'', ''1''), (''b'', ''2''), (''Path'', ''/'')]
   \<and> cookies (normalize res text t0 t1) = parse_cookies (raw_set_cookie res)"
proof -
  have e: "parse_cookies (Some ''a=1; b=2; Path=/'') =
             [(''a'', ''1''), (''b'', ''2''), (''Path'', ''/'')]"
    by (simp add: parse_cookies_def cookie_step_def obj_set_def js_trim_def js_whitespace_def)
  have w: "CHR ''='' \<in> set seg \<longrightarrow>
        cookie_step cs seg =
          (let name = takeWhile (\<lambda>c. c \<noteq> CHR ''='') seg;
               value = takeWhile (\<lambda>c. c \<noteq> CHR ''='')
                         (tl (dropWhile (\<lambda>c. c \<noteq> CHR ''='') seg))
           in if name = [] \<or> value = [] then cs
              else obj_set cs (js_trim name) (js_trim value))"
    using cookie_step_with_equals [of seg _ _ cs] by (simp add: Let_def)
  have n: "cookies (normalize res text t0 t1) = parse_cookies (raw_set_cookie res)"
    by (simp add: normalize_def)
  show ?thesis
    using e w n by (simp add: parse_cookies_def cookie_step_without_equals)
qed

theorem cookie_parsing_witness:
  "CHR ''='' \<notin> set ''Secure'' \<and> cookie_step [(''a'', ''1'')] ''Secure'' = [(''a'', ''1'')]
   \<and> CHR ''='' \<in> set '' b = 2=x''
   \<and> cookie_step [(''a'', ''1'')] '' b = 2=x'' = [(''a'', ''1''), (''b'', ''2'')]
   \<and> ''a=1'' \<noteq> [] \<and> parse_cookies (Some ''a=1'') = [(''a'', ''1'')]"
  using cookie_parsing [of "''a=1''" "''Secure''" "[(''a'', ''1'')]"]
    cookie_parsing [of "''a=1''" "'' b = 2=x''" "[(''a'', ''1'')]"]
  by (simp add: cookie_step_def obj_set_def js_trim_def js_whitespace_def)

theorem cookie_parsing_counterexample:
  "parse_cookies (Some ''a=b=c'') = [(''a'', ''b'')]
   \<and> spec_parse_cookies (Some ''a=b=c'') = [(''a'', ''b=c'')]
   \<and> parse_cookies (Some ''a= '') = [(''a'', [])]
   \<and> spec_parse_cookies (Some ''a= '') = []"
  by (simp add: parse_cookies_def spec_parse_cookies_def cookie_step_def spec_cookie_step_def
      obj_set_def js_trim_def js_whitespace_def)








section \<open>Properties of the controllers\<close>

lemma view_completed_frame:
  "tls_env (view_completed s message r now) = tls_env s
   \<and> in_flight (view_completed s message r now) = in_flight s
   \<and> history (view_completed s message r now) = history s @ [newHistory message r now]"
  by (simp add: view_completed_def)

lemma panel_completed_frame:
  "tls_env (panel_completed s pid r) = tls_env s
   \<and> in_flight (panel_completed s pid r) = in_flight s
   \<and> history (panel_completed s pid r) = history s"
  by (simp add: panel_completed_def)

lemma start_request_flag:
  "tls_env (start_request new_URL s orig message t0 t1 t2) =
     (case new_URL (js_String (url message)) of Inl _ \<Rightarrow> tls_env s | Inr _ \<Rightarrow> Some ''0'')"
  by (simp add: start_request_def dispatch_def Let_def view_completed_frame panel_completed_frame
      split: sum.splits origin.splits)

lemma step_keeps_flag:
  assumes "tls_env s = Some ''0''"
  shows "tls_env (step new_URL s ev) = Some ''0''"
proof (cases ev)
  case (ViewMessage message t0 t1 t2)
  with assms show ?thesis
    by (simp add: view_handler_def start_request_flag createNewRequestPanel_def split: sum.splits)
next
  case (PanelMessage pid message t0 t1)
  with assms show ?thesis
    by (simp add: panel_handler_def start_request_flag split: sum.splits)
next
  case (Settled ticket outcome t1 t2)
  with assms show ?thesis
    by (simp add: settled_def Let_def view_completed_frame panel_completed_frame
        split: option.splits origin.splits)
next
  case NewRequestCommand
  with assms show ?thesis
    by (simp add: createNewRequestPanel_def)
qed

lemma run_keeps_flag:
  "tls_env s = Some ''0'' \<Longrightarrow> tls_env (run new_URL s evs) = Some ''0''"
  unfolding run_def by (induction evs arbitrary: s) (simp_all add: step_keeps_flag)

text \<open>
  Claim C7. A \<^verbatim>\<open>makeRequest\<close> message that gets as far as the network (its URL parses) sets the
  process environment variable \<^verbatim>\<open>NODE_TLS_REJECT_UNAUTHORIZED\<close> to \<^verbatim>\<open>'0'\<close>, from the history view
  and from a request panel alike. The variable is one for the whole process, and no later
  event of any panel changes it back: after any further events it is still \<^verbatim>\<open>'0'\<close>.
\<close>

theorem tls_flag_process_wide:
  assumes "command message = ''makeRequest''" and "truthy (url message)"
    and "truthy (method message)" and "new_URL (js_String (url message)) = Inr href"
    and "ev = ViewMessage message t0 t1 t2 \<or> ev = PanelMessage pid message t0 t1"
  shows "snd (makeRequest new_URL fetch t0 t1 tls message) = Some ''0''
       \<and> tls_env (step new_URL s ev) = Some ''0''
       \<and> tls_env (run new_URL (step new_URL s ev) evs) = Some ''0''"
proof -
  have m: "snd (makeRequest new_URL fetch t0 t1 tls message) = Some ''0''"
    using assms(4) by (simp add: makeRequest_def dispatch_def split: prod.splits)
  have f: "tls_env (step new_URL s ev) = Some ''0''"
    using assms by (auto simp: view_handler_def panel_handler_def start_request_flag)
  show ?thesis
    using m f by (simp add: run_keeps_flag)
qed

theorem tls_flag_process_wide_witness:
  "command (get_request ''https://self-signed.test/'') = ''makeRequest''
   \<and> truthy (url (get_request ''https://self-signed.test/''))
   \<and> truthy (method (get_request ''https://self-signed.test/''))
   \<and> example_URL (js_String (url (get_request ''https://self-signed.test/''))) =
       Inr ''https://self-signed.test/''
   \<and> tls_env initial = None
   \<and> tls_env (step example_URL initial
        (PanelMessage 0 (get_request ''https://self-signed.test/'') 1 1)) = Some ''0''
   \<and> tls_env (run example_URL
        (step example_URL initial (PanelMessage 0 (get_request ''https://self-signed.test/'') 1 1))
        [Settled 0 (Inl ThrownOther) 2 2, NewRequestCommand,
         ViewMessage (get_request ''not a url'') 3 3 3]) = Some ''0'' "
proof -
  let ?m = "get_request ''https://self-signed.test/''"
  have c: "command ?m = ''makeRequest''" and u: "truthy (url ?m)" and m: "truthy (method ?m)"
    and p: "example_URL (js_String (url ?m)) = Inr ''https://self-signed.test/''"
    by (simp_all add: get_request_def sendRequest_def truthy_def js_String_def example_URL_def)
  have e: "PanelMessage 0 ?m 1 1 = ViewMessage ?m 1 1 1 \<or> PanelMessage 0 ?m 1 1 = PanelMessage 0 ?m 1 1"
    by simp
  have i: "tls_env initial = None"
    by (simp add: initial_def)
  from c u m p e i tls_flag_process_wide [where message = ?m and new_URL = example_URL
      and href = "''https://self-signed.test/''" and ev = "PanelMessage 0 ?m 1 1"
      and pid = 0 and ?t0.0 = 1 and ?t1.0 = 1 and ?t2.0 = 1 and s = initial
      and evs = "[Settled 0 (Inl ThrownOther) 2 2, NewRequestCommand,
                  ViewMessage (get_request ''not a url'') 3 3 3]"]
  show ?thesis by simp
qed

lemma step_history:
  "history (step new_URL s ev) = history s \<or> (\<exists>e. history (step new_URL s ev) = history s @ [e])"
proof (cases ev)
  case (ViewMessage message t0 t1 t2)
  then show ?thesis
    by (simp add: view_handler_def start_request_def dispatch_def Let_def view_completed_frame
        createNewRequestPanel_def split: sum.splits)
next
  case (PanelMessage pid message t0 t1)
  then show ?thesis
    by (simp add: panel_handler_def start_request_def dispatch_def Let_def panel_completed_frame
        split: sum.splits)
next
  case (Settled ticket outcome t1 t2)
  then show ?thesis
    by (simp add: settled_def Let_def view_completed_frame panel_completed_frame
        split: option.splits origin.splits)
next
  case NewRequestCommand
  then show ?thesis by (simp add: createNewRequestPanel_def)
qed

lemma step_history_prefix: "prefix (history s) (history (step new_URL s ev))"
  using step_history [of new_URL s ev] by (auto simp: prefix_def)

lemma run_history_prefix: "prefix (history s) (history (run new_URL s evs))"
  unfolding run_def
proof (induction evs arbitrary: s)
  case Nil
  then show ?case by simp
next
  case (Cons ev evs)
  have "prefix (history s) (history (step new_URL s ev))"
    by (rule step_history_prefix)
  also have "prefix (history (step new_URL s ev))
      (history (foldl (step new_URL) (step new_URL s ev) evs))"
    by (rule Cons.IH)
  finally show ?case by simp
qed

lemma settled_view:
  assumes "map_of (in_flight s) ticket = Some p" and "p_origin p = HistoryView"
  shows "history (settled s ticket outcome t1 t2) =
           history s @ [newHistory (p_message p) (settle outcome (p_startTime p) t1) t2]"
    and "in_flight (settled s ticket outcome t1 t2) = AList.delete ticket (in_flight s)"
  using assms by (simp_all add: settled_def Let_def view_completed_def)

lemma settle_sequence:
  assumes "distinct (map fst xs)"
    and "\<forall>(k, p, outcome, t1, t2) \<in> set xs.
           map_of (in_flight s) k = Some p \<and> p_origin p = HistoryView"
  shows "history (run new_URL s (map (\<lambda>(k, p, outcome, t1, t2). Settled k outcome t1 t2) xs)) =
           history s @
           map (\<lambda>(k, p, outcome, t1, t2).
                  newHistory (p_message p) (settle outcome (p_startTime p) t1) t2) xs"
  using assms
proof (induction xs arbitrary: s)
  case Nil
  then show ?case by (simp add: run_def)
next
  case (Cons x xs)
  obtain k p outcome t1 t2 where x: "x = (k, p, outcome, t1, t2)"
    by (cases x) auto
  let ?s = "settled s k outcome t1 t2"
  have kp: "map_of (in_flight s) k = Some p" "p_origin p = HistoryView"
    using Cons.prems(2) x by auto
  have h: "history ?s =
             history s @ [newHistory (p_message p) (settle outcome (p_startTime p) t1) t2]"
    and f: "in_flight ?s = AList.delete k (in_flight s)"
    using kp by (rule settled_view)+
  have d: "distinct (map fst xs)" and nk: "k \<notin> fst ` set xs"
    using Cons.prems(1) x by auto
  have rest: "\<forall>(k', p', outcome', t1', t2') \<in> set xs.
      map_of (in_flight ?s) k' = Some p' \<and> p_origin p' = HistoryView"
  proof (clarify)
    fix k' p' outcome' t1' t2'
    assume m: "(k', p', outcome', t1', t2') \<in> set xs"
    then have "k' \<noteq> k" using nk by force
    moreover have "map_of (in_flight s) k' = Some p' \<and> p_origin p' = HistoryView"
      using Cons.prems(2) m by auto
    ultimately show "map_of (in_flight ?s) k' = Some p' \<and> p_origin p' = HistoryView"
      by (simp add: f delete_conv')
  qed
  have "history (run new_URL ?s (map (\<lambda>(k, p, outcome, t1, t2). Settled k outcome t1 t2) xs)) =
          history ?s @
          map (\<lambda>(k, p, outcome, t1, t2).
                 newHistory (p_message p) (settle outcome (p_startTime p) t1) t2) xs"
    using d rest by (rule Cons.IH)
  then show ?case
    by (simp add: x h run_def)
qed

text \<open>
  Claim C8. Every event leaves \<^verbatim>\<open>_history\<close> as it was or adds exactly one entry at its end, so
  after any sequence of events the earlier history is a prefix of the later one: entries
  keep their position and contents, and none is removed. A settled request of the history
  view always adds its entry, whatever the history already holds and however long it is.
\<close>

theorem history_append_only:
  "(history (step new_URL s ev) = history s
      \<or> (\<exists>e. history (step new_URL s ev) = history s @ [e]))
   \<and> prefix (history s) (history (run new_URL s evs))
   \<and> (map_of (in_flight s) ticket = Some p \<and> p_origin p = HistoryView \<longrightarrow>
        history (step new_URL s (Settled ticket outcome t1 t2)) =
          history s @ [newHistory (p_message p) (settle outcome (p_startTime p) t1) t2])"
  using step_history [of new_URL s ev] run_history_prefix [of s new_URL evs]
  by (simp add: settled_view)

theorem history_append_only_witness:
  "map_of (in_flight one_pending) 0 =
     Some \<lparr>p_origin = HistoryView, p_message = get_request ''http://localhost/'',
           p_target = (''http://localhost/'', []),
           p_options = build_options (get_request ''http://localhost/''), p_startTime = 10\<rparr>
   \<and> history one_pending = []
   \<and> history (step example_URL one_pending (Settled 0 (Inl ThrownOther) 25 26)) =
       [\<lparr>h_url = ''http://localhost/'', h_method = ''GET'', timestamp = 26,
         response = catch_block ThrownOther 10 25\<rparr>]"
proof -
  let ?p = "\<lparr>p_origin = HistoryView, p_message = get_request ''http://localhost/'',
           p_target = (''http://localhost/'', []),
           p_options = build_options (get_request ''http://localhost/''), p_startTime = 10\<rparr>"
  have a: "map_of (in_flight one_pending) 0 = Some ?p" and h: "history one_pending = []"
    by (simp_all add: one_pending_def initial_def view_handler_def start_request_def dispatch_def
        get_request_def sendRequest_def collect_rows_def truthy_def js_String_def example_URL_def)
  have g: "newHistory (get_request ''http://localhost/'') r now =
             \<lparr>h_url = ''http://localhost/'', h_method = ''GET'', timestamp = now, response = r\<rparr>"
    for r now
    by (simp add: newHistory_def get_request_def sendRequest_def js_String_def)
  from a h history_append_only [of example_URL one_pending _ _ 0 ?p "Inl ThrownOther" 25 26]
  show ?thesis by (simp add: g settle_def)
qed

text \<open>
  Claim C9. Requests of the history view that are in flight add their entries in the order
  in which they settle, whichever tickets (submission order) they hold. So three requests
  submitted in the order a, b, c that settle in the order b, a, c leave the history
  \<^verbatim>\<open>[b, a, c]\<close>.
\<close>

theorem completion_order:
  assumes "command a = ''makeRequest''" and "truthy (url a)" and "truthy (method a)"
    and "new_URL (js_String (url a)) = Inr href_a"
    and "command b = ''makeRequest''" and "truthy (url b)" and "truthy (method b)"
    and "new_URL (js_String (url b)) = Inr href_b"
    and "command c = ''makeRequest''" and "truthy (url c)" and "truthy (method c)"
    and "new_URL (js_String (url c)) = Inr href_c"
  shows "(distinct (map fst xs)
          \<and> (\<forall>(k, p, outcome, t1, t2) \<in> set xs.
                map_of (in_flight s) k = Some p \<and> p_origin p = HistoryView)
          \<longrightarrow> history (run new_URL s
                  (map (\<lambda>(k, p, outcome, t1, t2). Settled k outcome t1 t2) xs)) =
                history s @
                map (\<lambda>(k, p, outcome, t1, t2).
                       newHistory (p_message p) (settle outcome (p_startTime p) t1) t2) xs)
       \<and> history (run new_URL initial
           [ViewMessage a sa ea na, ViewMessage b sb eb nb, ViewMessage c sc ec nc,
            Settled 1 outcome_b end_b now_b, Settled 0 outcome_a end_a now_a,
            Settled 2 outcome_c end_c now_c]) =
         [newHistory b (settle outcome_b sb end_b) now_b,
          newHistory a (settle outcome_a sa end_a) now_a,
          newHistory c (settle outcome_c sc end_c) now_c]"
proof -
  have i: "history (run new_URL initial
           [ViewMessage a sa ea na, ViewMessage b sb eb nb, ViewMessage c sc ec nc,
            Settled 1 outcome_b end_b now_b, Settled 0 outcome_a end_a now_a,
            Settled 2 outcome_c end_c now_c]) =
         [newHistory b (settle outcome_b sb end_b) now_b,
          newHistory a (settle outcome_a sa end_a) now_a,
          newHistory c (settle outcome_c sc end_c) now_c]"
    using assms
    by (simp add: run_def initial_def view_handler_def start_request_def dispatch_def settled_def
        view_completed_def Let_def)
  show ?thesis
    using i settle_sequence [of xs s new_URL] by simp
qed

theorem completion_order_witness:
  "map h_url (history (run example_URL initial
     [ViewMessage (get_request ''http://a.test/'') 1 1 1,
      ViewMessage (get_request ''http://b.test/'') 2 2 2,
      ViewMessage (get_request ''http://c.test/'') 3 3 3,
      Settled 1 (Inl ThrownOther) 4 4, Settled 0 (Inl ThrownOther) 5 5,
      Settled 2 (Inl ThrownOther) 6 6])) =
   [''http://b.test/'', ''http://a.test/'', ''http://c.test/'']"
proof -
  have v: "command (get_request u) = ''makeRequest''" "truthy (method (get_request u))"
    "js_String (url (get_request u)) = u" "truthy (url (get_request u)) = (u \<noteq> [])" for u
    by (simp_all add: get_request_def sendRequest_def truthy_def js_String_def)
  have p: "example_URL ''http://a.test/'' = Inr ''http://a.test/''"
    "example_URL ''http://b.test/'' = Inr ''http://b.test/''"
    "example_URL ''http://c.test/'' = Inr ''http://c.test/''"
    by (simp_all add: example_URL_def)
  from completion_order [where new_URL = example_URL
      and a = "get_request ''http://a.test/''" and b = "get_request ''http://b.test/''"
      and c = "get_request ''http://c.test/''" and href_a = "''http://a.test/''"
      and href_b = "''http://b.test/''" and href_c = "''http://c.test/''"
      and sa = 1 and ea = 1 and na = 1 and sb = 2 and eb = 2 and nb = 2
      and sc = 3 and ec = 3 and nc = 3
      and outcome_a = "Inl ThrownOther" and outcome_b = "Inl ThrownOther"
      and outcome_c = "Inl ThrownOther"
      and end_b = 4 and now_b = 4 and end_a = 5 and now_a = 5 and end_c = 6 and now_c = 6
      and xs = "[]" and s = initial]
  show ?thesis by (simp add: v p newHistory_def)
qed

text \<open>
  Claim C10. A message whose command is none of \<^verbatim>\<open>makeRequest\<close>, \<^verbatim>\<open>openLink\<close> and
  \<^verbatim>\<open>startNewRequest\<close>, and a \<^verbatim>\<open>makeRequest\<close> message without \<^verbatim>\<open>url\<close> or without \<^verbatim>\<open>method\<close>,
  changes nothing in either controller: the whole state stays as it was, so no request goes
  in flight, the history is unchanged and nothing is posted.
\<close>

theorem ignored_messages:
  assumes "command message \<notin> {''makeRequest'', ''openLink'', ''startNewRequest''}
           \<or> (command message = ''makeRequest'' \<and> (url message = None \<or> method message = None))"
  shows "step new_URL s (ViewMessage message t0 t1 t2) = s
       \<and> step new_URL s (PanelMessage pid message t0 t1) = s"
  using assms by (auto simp: view_handler_def panel_handler_def truthy_def)

theorem ignored_messages_witness:
  "command ((get_request ''http://localhost/'')\<lparr>command := ''refresh''\<rparr>)
     \<notin> {''makeRequest'', ''openLink'', ''startNewRequest''}
   \<and> step example_URL one_pending
        (ViewMessage ((get_request ''http://localhost/'')\<lparr>command := ''refresh''\<rparr>) 1 2 3) = one_pending
   \<and> command ((get_request ''http://localhost/'')\<lparr>method := None\<rparr>) = ''makeRequest''
   \<and> method ((get_request ''http://localhost/'')\<lparr>method := None\<rparr>) = None
   \<and> step example_URL one_pending
        (PanelMessage 0 ((get_request ''http://localhost/'')\<lparr>method := None\<rparr>) 1 2) = one_pending"
proof -
  let ?x = "(get_request ''http://localhost/'')\<lparr>command := ''refresh''\<rparr>"
  let ?y = "(get_request ''http://localhost/'')\<lparr>method := None\<rparr>"
  have x: "command ?x \<notin> {''makeRequest'', ''openLink'', ''startNewRequest''}"
    and y: "command ?y = ''makeRequest''" "method ?y = None"
    by (simp_all add: get_request_def sendRequest_def)
  from x have hx: "command ?x \<notin> {''makeRequest'', ''openLink'', ''startNewRequest''}
           \<or> (command ?x = ''makeRequest'' \<and> (url ?x = None \<or> method ?x = None))"
    by (rule disjI1)
  from y have hy: "command ?y \<notin> {''makeRequest'', ''openLink'', ''startNewRequest''}
           \<or> (command ?y = ''makeRequest'' \<and> (url ?y = None \<or> method ?y = None))"
    by simp
  from x y ignored_messages [OF hx, of example_URL one_pending 1 2 3 0]
    ignored_messages [OF hy, of example_URL one_pending 1 2 3 0]
  show ?thesis by simp
qed

end
